theory Spec2Isabelle
  imports Main
begin

section \<open>Values, errors and dispatch requests\<close>

text \<open>
  The module under verification is \<^verbatim>\<open>vllm/v1/executor/distributed_gpu_executor.py\<close>:
  the class \<^verbatim>\<open>DistributedGPUExecutor\<close>, a controller that reaches its workers only
  through the abstract method \<^verbatim>\<open>_run_workers\<close>.

  Argument payloads that the controller forwards are \<^verbatim>\<open>None\<close>, integers and strings.
\<close>

datatype arg = ANone | AInt int | AStr string

text \<open>
  What one worker invocation hands back to the controller: \<^verbatim>\<open>None\<close>, the pair
  \<^verbatim>\<open>(num_gpu_blocks, num_cpu_blocks)\<close> of \<^verbatim>\<open>determine_num_available_blocks\<close>, or a
  pending handle (a future) naming the worker it was launched on.
\<close>

datatype ret = RNone | RBlocks int int | RFuture nat

text \<open>
  Exceptions are values. \<open>WorkerExecutionError i op cause\<close> is the failure a
  dispatch surfaces for worker \<open>i\<close>.
\<close>

datatype error =
    NotImplementedError
  | ValueError
  | TypeError
  | WorkerExecutionError nat string string

text \<open>
  One call of \<^verbatim>\<open>_run_workers(method, *args, async_run_tensor_parallel_workers_only,
  max_concurrent_workers, **kwargs)\<close>. Keyword arguments keep their order.
\<close>

record call =
  method_name :: string
  args :: "arg list"
  kwargs :: "(string \<times> arg) list"
  async_run_tensor_parallel_workers_only :: bool
  max_concurrent_workers :: "int option"

text \<open>The defaults of the two keyword-only parameters: \<^verbatim>\<open>False\<close> and \<^verbatim>\<open>None\<close>.\<close>

definition mk_call :: "string \<Rightarrow> arg list \<Rightarrow> (string \<times> arg) list \<Rightarrow> call" where
  "mk_call m as kw =
     \<lparr>method_name = m, args = as, kwargs = kw,
      async_run_tensor_parallel_workers_only = False,
      max_concurrent_workers = None\<rparr>"

section \<open>Observable events and the controller's state\<close>

text \<open>
  Worker-side events, each tagged with the worker's pool index and the operation name.
\<close>

datatype wevent =
    Invoked nat string
  | Completed nat string
  | Crashed nat string string
  | Launched nat string

text \<open>
  Controller-side events: a log record (format string and arguments, as handed to
  \<^verbatim>\<open>logger.info\<close>), a dispatch being issued, the worker events a dispatch causes, and
  the dispatch returning or raising.
\<close>

datatype event =
    Logged string "arg list"
  | Issued call
  | Worker wevent
  | Returned string
  | Raised string error

record 't exec_state =
  trace :: "event list"
  tstate :: 't

text \<open>
  \<^verbatim>\<open>_run_workers\<close> is abstract: a transport-specific subclass supplies it. It is a
  parameter here: given the request and the transport's state it yields a result or an
  exception, the new transport state, and the worker events it caused, in order.
\<close>

type_synonym 't transport = "call \<Rightarrow> 't \<Rightarrow> (error + ret list) \<times> 't \<times> wevent list"

text \<open>The call site \<^verbatim>\<open>self._run_workers(...)\<close>, with the trace kept.\<close>

definition run_workers ::
  "'t transport \<Rightarrow> call \<Rightarrow> 't exec_state \<Rightarrow> (error + ret list) \<times> 't exec_state" where
  "run_workers rw c s =
     (case rw c (tstate s) of
        (r, t', evs) \<Rightarrow>
          (r, \<lparr>trace = trace s @ [Issued c] @ map Worker evs @
                 [case r of Inl e \<Rightarrow> Raised (method_name c) e
                          | Inr _ \<Rightarrow> Returned (method_name c)],
               tstate = t'\<rparr>))"

definition logger_info :: "string \<Rightarrow> arg list \<Rightarrow> 't exec_state \<Rightarrow> 't exec_state" where
  "logger_info fmt as s = \<lparr>trace = trace s @ [Logged fmt as], tstate = tstate s\<rparr>"

section \<open>The executor's methods\<close>

subsection \<open>\<^verbatim>\<open>determine_num_available_blocks\<close>\<close>

text \<open>
  \<^verbatim>\<open>b[0]\<close> on one element of the dispatch result: only the pair is subscriptable.
\<close>

fun subscript0 :: "ret \<Rightarrow> error + int" where
  "subscript0 (RBlocks g c) = Inr g"
| "subscript0 RNone = Inl TypeError"
| "subscript0 (RFuture h) = Inl TypeError"

text \<open>
  \<^verbatim>\<open>min(b[0] for b in num_blocks)\<close>: the builtin pulls the first item of the generator
  (\<^verbatim>\<open>ValueError\<close> when there is none), then keeps the smaller of the running
  minimum and each further item; an item that cannot be subscripted raises when the
  generator reaches it.
\<close>

fun min_loop :: "int \<Rightarrow> ret list \<Rightarrow> error + int" where
  "min_loop m [] = Inr m"
| "min_loop m (b # bs) =
     (case subscript0 b of
        Inl e \<Rightarrow> Inl e
      | Inr x \<Rightarrow> min_loop (if x < m then x else m) bs)"

fun min_first :: "ret list \<Rightarrow> error + int" where
  "min_first [] = Inl ValueError"
| "min_first (b # bs) =
     (case subscript0 b of
        Inl e \<Rightarrow> Inl e
      | Inr x \<Rightarrow> min_loop x bs)"

definition determine_num_available_blocks ::
  "'t transport \<Rightarrow> 't exec_state \<Rightarrow> (error + int \<times> int) \<times> 't exec_state" where
  "determine_num_available_blocks rw s =
     (case run_workers rw (mk_call ''determine_num_available_blocks'' [] []) s of
        (Inl e, s') \<Rightarrow> (Inl e, s')
      | (Inr num_blocks, s') \<Rightarrow>
          (case min_first num_blocks of
             Inl e \<Rightarrow> (Inl e, s')
           | Inr num_gpu_blocks \<Rightarrow> (Inr (num_gpu_blocks, 0), s')))"

text \<open>A worker report \<open>(g, c)\<close> as the value the dispatch returns for it.\<close>

definition report :: "int \<times> int \<Rightarrow> ret" where
  "report b = RBlocks (fst b) (snd b)"

subsection \<open>\<^verbatim>\<open>initialize_cache\<close>\<close>

text \<open>
  \<^verbatim>\<open>logger.info("# GPU blocks: %d", num_gpu_blocks)\<close>, then the two dispatches, one
  statement after the other; an exception of the first leaves the method at once.
\<close>

definition initialize_cache ::
  "'t transport \<Rightarrow> int \<Rightarrow> 't exec_state \<Rightarrow> (error + unit) \<times> 't exec_state" where
  "initialize_cache rw num_gpu_blocks s =
     (let s0 = logger_info ''# GPU blocks: %d'' [AInt num_gpu_blocks] s in
      case run_workers rw (mk_call ''initialize_cache'' [AInt num_gpu_blocks] []) s0 of
        (Inl e, s1) \<Rightarrow> (Inl e, s1)
      | (Inr _, s1) \<Rightarrow>
          (case run_workers rw (mk_call ''compile_or_warm_up_model'' [] []) s1 of
             (Inl e, s2) \<Rightarrow> (Inl e, s2)
           | (Inr _, s2) \<Rightarrow> (Inr (), s2)))"

subsection \<open>\<^verbatim>\<open>save_sharded_state\<close>\<close>

fun opt_str :: "string option \<Rightarrow> arg" where
  "opt_str None = ANone"
| "opt_str (Some p) = AStr p"

fun opt_int :: "int option \<Rightarrow> arg" where
  "opt_int None = ANone"
| "opt_int (Some n) = AInt n"

definition save_call :: "string \<Rightarrow> string option \<Rightarrow> int option \<Rightarrow> call" where
  "save_call path pattern max_size =
     mk_call ''save_sharded_state'' []
       [(''path'', AStr path), (''pattern'', opt_str pattern), (''max_size'', opt_int max_size)]"

definition save_sharded_state ::
  "'t transport \<Rightarrow> string \<Rightarrow> string option \<Rightarrow> int option \<Rightarrow> 't exec_state \<Rightarrow>
     (error + unit) \<times> 't exec_state" where
  "save_sharded_state rw path pattern max_size s =
     (case run_workers rw (save_call path pattern max_size) s of
        (Inl e, s1) \<Rightarrow> (Inl e, s1)
      | (Inr _, s1) \<Rightarrow> (Inr (), s1))"

subsection \<open>The abstract methods of the base class\<close>

text \<open>
  \<^verbatim>\<open>execute_model\<close>, \<^verbatim>\<open>_run_workers\<close> and \<^verbatim>\<open>check_health\<close> have one statement each
  on the base class: \<^verbatim>\<open>raise NotImplementedError\<close>. The scheduler output and the model
  runner output are opaque to this module.
\<close>

definition execute_model ::
  "'so \<Rightarrow> 't exec_state \<Rightarrow> (error + 'out) \<times> 't exec_state" where
  "execute_model scheduler_output s = (Inl NotImplementedError, s)"

definition base_run_workers :: "'t transport" where
  "base_run_workers c t = (Inl NotImplementedError, t, [])"

definition check_health :: "'t exec_state \<Rightarrow> (error + unit) \<times> 't exec_state" where
  "check_health s = (Inl NotImplementedError, s)"

section \<open>The dispatcher over a worker pool\<close>

text \<open>
  Modelled from the spec: the body of \<^verbatim>\<open>_run_workers\<close>, which the source declares
  abstract and leaves to transport-specific subclasses that are not part of the
  module. Every definition of this section follows the spec's WorkerHandle,
  WorkerPool and Dispatcher (sections 3, 4.1 and 4.2), not the source.
\<close>

text \<open>
  Modelled from the spec: the WorkerPool, missing from the source. A pool is the
  ordered sequence of its worker handles; a handle's identity is its position. Each
  handle has a role and a connection state, opaque here.
\<close>

datatype role = Driver | Remote

type_synonym 'w pool = "(role \<times> 'w) list"

text \<open>
  Modelled from the spec: the worker execution endpoint, missing from the source. A
  named operation with its payload, run on one
  worker, returns a value or fails with a cause, and may change that worker.
\<close>

type_synonym 'w endpoint = "call \<Rightarrow> 'w \<Rightarrow> (string + ret) \<times> 'w"

text \<open>
  Modelled from the spec: the pool invariant, which the source never states. The pool
  is non-empty and has exactly one driver.
\<close>

definition pool_ok :: "'w pool \<Rightarrow> bool" where
  "pool_ok pool = (pool \<noteq> [] \<and> length (filter (\<lambda>h. fst h = Driver) pool) = 1)"

text \<open>
  Modelled from the spec: \<^verbatim>\<open>remote_workers()\<close>, missing from the source: all
  non-driver handles, pool order preserved. \<open>remote_from i pool\<close> gives their indices,
  counted from \<open>i\<close>.
\<close>

fun remote_from :: "nat \<Rightarrow> 'w pool \<Rightarrow> nat list" where
  "remote_from i [] = []"
| "remote_from i ((Driver, w) # hs) = remote_from (Suc i) hs"
| "remote_from i ((Remote, w) # hs) = i # remote_from (Suc i) hs"

definition remote_workers :: "'w pool \<Rightarrow> nat list" where
  "remote_workers pool = remote_from 0 pool"

text \<open>
  Modelled from the spec: the fan-out of the All-synchronous mode, missing from the
  source. It invokes the operation on every worker, the driver included,
  and waits for each of them: every invocation is resolved, also after a failure.
  The workers are run one after the other in pool order, which is one of the
  interleavings the spec allows; the outcomes are aligned with the pool.
\<close>

fun invoke_from ::
  "'w endpoint \<Rightarrow> call \<Rightarrow> nat \<Rightarrow> 'w pool \<Rightarrow>
     (nat \<times> (string + ret)) list \<times> 'w pool \<times> wevent list" where
  "invoke_from ep c i [] = ([], [], [])"
| "invoke_from ep c i ((r, w) # hs) =
     (case ep c w of
        (out, w') \<Rightarrow>
          (case invoke_from ep c (Suc i) hs of
             (outs, hs', evs) \<Rightarrow>
               ((i, out) # outs, (r, w') # hs',
                Invoked i (method_name c) #
                (case out of
                   Inl cause \<Rightarrow> Crashed i (method_name c) cause
                 | Inr v \<Rightarrow> Completed i (method_name c)) # evs)))"

text \<open>
  Modelled from the spec: the fan-in of the All-synchronous mode, missing from the
  source. It yields the results in pool order, or the first failure in pool order with
  the index of the worker it came from.
\<close>

fun gather :: "(nat \<times> (string + ret)) list \<Rightarrow> (nat \<times> string) + ret list" where
  "gather [] = Inr []"
| "gather ((i, Inl cause) # outs) = Inl (i, cause)"
| "gather ((i, Inr v) # outs) =
     (case gather outs of Inl f \<Rightarrow> Inl f | Inr vs \<Rightarrow> Inr (v # vs))"

text \<open>
  Modelled from the spec: \<^verbatim>\<open>dispatch(operation, args, mode)\<close>, the implementation of
  \<^verbatim>\<open>_run_workers\<close> that is missing from the source. The flag
  \<^verbatim>\<open>async_run_tensor_parallel_workers_only\<close> selects the mode. The
  remote-asynchronous-subset mode launches the operation on the remote workers only
  and returns one pending handle per launch, in pool order, without running any of
  them to completion: no worker state changes before the call returns. The bound
  \<^verbatim>\<open>max_concurrent_workers\<close> throttles how many launches are outstanding at once; it
  changes neither the set of workers launched nor the order of the handles.
\<close>

definition dispatch :: "'w endpoint \<Rightarrow> 'w pool transport" where
  "dispatch ep c pool =
     (if async_run_tensor_parallel_workers_only c then
        (Inr (map RFuture (remote_workers pool)), pool,
         map (\<lambda>i. Launched i (method_name c)) (remote_workers pool))
      else
        (case invoke_from ep c 0 pool of
           (outs, pool', evs) \<Rightarrow>
             (case gather outs of
                Inl (i, cause) \<Rightarrow>
                  (Inl (WorkerExecutionError i (method_name c) cause), pool', evs)
              | Inr vs \<Rightarrow> (Inr vs, pool', evs))))"

section \<open>Reading traces\<close>

text \<open>The events a run appended to the trace.\<close>

definition new_events :: "'t exec_state \<Rightarrow> 't exec_state \<Rightarrow> event list" where
  "new_events s s' = drop (length (trace s)) (trace s')"

fun is_logged :: "event \<Rightarrow> bool" where
  "is_logged (Logged fmt as) = True"
| "is_logged e = False"

fun is_issued :: "event \<Rightarrow> bool" where
  "is_issued (Issued c) = True"
| "is_issued e = False"

text \<open>The operation an event belongs to; a log record belongs to none.\<close>

fun wevent_op :: "wevent \<Rightarrow> string" where
  "wevent_op (Invoked i m) = m"
| "wevent_op (Completed i m) = m"
| "wevent_op (Crashed i m cause) = m"
| "wevent_op (Launched i m) = m"

fun event_op :: "event \<Rightarrow> string option" where
  "event_op (Logged fmt as) = None"
| "event_op (Issued c) = Some (method_name c)"
| "event_op (Worker w) = Some (wevent_op w)"
| "event_op (Returned m) = Some m"
| "event_op (Raised m e) = Some m"

text \<open>The events one call of \<open>run_workers\<close> appends to the trace.\<close>

definition dispatch_events :: "'t transport \<Rightarrow> call \<Rightarrow> 't \<Rightarrow> event list" where
  "dispatch_events rw c t =
     Issued c # map Worker (snd (snd (rw c t))) @
       [case fst (rw c t) of
          Inl e \<Rightarrow> Raised (method_name c) e
        | Inr _ \<Rightarrow> Returned (method_name c)]"

section \<open>A recording worker for the concrete scenarios\<close>

text \<open>
  A test double for the worker endpoint, used only to run the scenarios: it reports
  fixed block counts, fails the operations listed in \<open>faults\<close> with the given cause,
  and records every request it applied.
\<close>

record mock_worker =
  blocks :: "int \<times> int"
  faults :: "(string \<times> string) list"
  applied :: "call list"

definition mock_endpoint :: "mock_worker endpoint" where
  "mock_endpoint c w =
     (case map_of (faults w) (method_name c) of
        Some cause \<Rightarrow> (Inl cause, w)
      | None \<Rightarrow>
          (Inr (if method_name c = ''determine_num_available_blocks''
                then report (blocks w) else RNone),
           w\<lparr>applied := applied w @ [c]\<rparr>))"

definition healthy :: "int \<Rightarrow> mock_worker" where
  "healthy g = \<lparr>blocks = (g, 0), faults = [], applied = []\<rparr>"

definition faulty :: "int \<Rightarrow> string \<Rightarrow> string \<Rightarrow> mock_worker" where
  "faulty g m cause = \<lparr>blocks = (g, 0), faults = [(m, cause)], applied = []\<rparr>"

definition start :: "'t \<Rightarrow> 't exec_state" where
  "start t = \<lparr>trace = [], tstate = t\<rparr>"

text \<open>A pool whose first handle is the driver and whose other handles are remote.\<close>

fun pool_of :: "'w list \<Rightarrow> 'w pool" where
  "pool_of [] = []"
| "pool_of (w # ws) = (Driver, w) # map (Pair Remote) ws"

text \<open>A worker without faults reporting the pair \<open>b\<close>.\<close>

definition reporting :: "int \<times> int \<Rightarrow> mock_worker" where
  "reporting b = \<lparr>blocks = b, faults = [], applied = []\<rparr>"

section \<open>Properties\<close>

lemma Min_insert_step:
  "finite S \<Longrightarrow> Min (insert (if g < m then g else m) S) = Min (insert m (insert g S))"
  for g m :: int
proof (cases "S = {}")
  case True
  then show ?thesis by (simp add: min_def)
next
  case False
  assume "finite S"
  with False
  have "Min (insert (if g < m then g else m) S) = min (if g < m then g else m) (Min S)"
    and "Min (insert m (insert g S)) = min m (min g (Min S))"
    by simp_all
  then show ?thesis by (simp add: min_def)
qed

lemma min_loop_reports:
  "min_loop m (map report bs) = Inr (Min (insert m (fst ` set bs)))"
proof (induction bs arbitrary: m)
  case Nil
  show ?case by simp
next
  case (Cons b bs)
  from Cons.IH [of "if fst b < m then fst b else m"] show ?case
    by (simp add: report_def Min_insert_step del: Min_insert)
qed

lemma min_first_reports:
  "bs \<noteq> [] \<Longrightarrow> min_first (map report bs) = Inr (Min (fst ` set bs))"
proof (cases bs)
  case Nil
  assume "bs \<noteq> []"
  with Nil show ?thesis by simp
next
  case (Cons b bs')
  have "min_first (map report bs) = min_loop (fst b) (map report bs')"
    using Cons by (simp add: report_def)
  then show ?thesis using Cons by (simp add: min_loop_reports)
qed

subsection \<open>Capacity negotiation\<close>

lemma determine_result:
  "fst (determine_num_available_blocks rw s) =
     (case fst (rw (mk_call ''determine_num_available_blocks'' [] []) (tstate s)) of
        Inl e \<Rightarrow> Inl e
      | Inr num_blocks \<Rightarrow>
          (case min_first num_blocks of Inl e \<Rightarrow> Inl e | Inr g \<Rightarrow> Inr (g, 0)))"
  by (simp add: determine_num_available_blocks_def run_workers_def
      split: prod.splits sum.splits)

text \<open>
  Claim C1. Whenever the dispatch returns the reports of a non-empty pool,
  \<^verbatim>\<open>determine_num_available_blocks\<close> returns the pair of the minimum of the reported
  primary-block counts and the constant 0. The minimum is one of the reports and
  exceeds none of them.
\<close>

theorem determine_num_available_blocks_min:
  assumes "fst (rw (mk_call ''determine_num_available_blocks'' [] []) (tstate s))
             = Inr (map report bs)"
    and "bs \<noteq> []"
  shows "fst (determine_num_available_blocks rw s) = Inr (Min (fst ` set bs), 0)
         \<and> Min (fst ` set bs) \<in> fst ` set bs
         \<and> (\<forall>b \<in> set bs. Min (fst ` set bs) \<le> fst b)"
proof -
  from assms have "fst (determine_num_available_blocks rw s) = Inr (Min (fst ` set bs), 0)"
    by (simp add: determine_result min_first_reports)
  moreover from \<open>bs \<noteq> []\<close> have "Min (fst ` set bs) \<in> fst ` set bs"
    by (intro Min_in) simp_all
  moreover have "\<forall>b \<in> set bs. Min (fst ` set bs) \<le> fst b"
    by simp
  ultimately show ?thesis by blast
qed

text \<open>
  The scenario of the spec: a driver and three remote workers reporting
  100, 80, 120 and 90 primary blocks give \<open>(80, 0)\<close>.
\<close>

theorem determine_num_available_blocks_min_witness:
  "fst (determine_num_available_blocks (dispatch mock_endpoint)
          (start (pool_of (map healthy [100, 80, 120, 90])))) = Inr (80, 0)"
proof -
  have h: "fst (dispatch mock_endpoint (mk_call ''determine_num_available_blocks'' [] [])
             (tstate (start (pool_of (map healthy [100, 80, 120, 90])))))
           = Inr (map report [(100, 0), (80, 0), (120, 0), (90, 0)])"
    by (simp add: dispatch_def mock_endpoint_def mk_call_def healthy_def start_def)
  have n: "[(100, 0), (80, 0), (120, 0), (90, 0)] \<noteq> ([] :: (int \<times> int) list)" by simp
  from determine_num_available_blocks_min
         [of "dispatch mock_endpoint" "start (pool_of (map healthy [100, 80, 120, 90]))"
             "[(100, 0), (80, 0), (120, 0), (90, 0)]", OF h n]
  show ?thesis by simp
qed

text \<open>
  Claim C8. When the dispatch yields an empty sequence of reports, the minimum over
  it fails: \<^verbatim>\<open>determine_num_available_blocks\<close> raises \<^verbatim>\<open>ValueError\<close> and returns no
  cache size.
\<close>

theorem determine_num_available_blocks_empty:
  assumes "fst (rw (mk_call ''determine_num_available_blocks'' [] []) (tstate s)) = Inr []"
  shows "fst (determine_num_available_blocks rw s) = Inl ValueError"
  using assms by (simp add: determine_result)

theorem determine_num_available_blocks_empty_witness:
  "fst (determine_num_available_blocks (dispatch mock_endpoint)
          (start ([] :: mock_worker pool))) = Inl ValueError"
proof -
  have h: "fst (dispatch mock_endpoint (mk_call ''determine_num_available_blocks'' [] [])
             (tstate (start ([] :: mock_worker pool)))) = Inr []"
    by (simp add: dispatch_def mk_call_def start_def)
  from determine_num_available_blocks_empty
         [of "dispatch mock_endpoint" "start ([] :: mock_worker pool)", OF h]
  show ?thesis .
qed

text \<open>
  Claim C10. The result does not depend on the secondary (CPU) block counts: two runs
  whose reports agree on every primary component return the same value, whatever the
  secondary components are.
\<close>

theorem determine_num_available_blocks_ignores_secondary:
  assumes "fst (rw1 (mk_call ''determine_num_available_blocks'' [] []) (tstate s1))
             = Inr (map report bs1)"
    and "fst (rw2 (mk_call ''determine_num_available_blocks'' [] []) (tstate s2))
             = Inr (map report bs2)"
    and "map fst bs1 = map fst bs2"
  shows "fst (determine_num_available_blocks rw1 s1)
         = fst (determine_num_available_blocks rw2 s2)"
proof (cases "bs1 = []")
  case True
  with assms(3) have "bs2 = []" by simp
  with True assms(1,2) show ?thesis by (simp add: determine_result)
next
  case False
  with assms(3) have ne: "bs2 \<noteq> []" by auto
  from assms(3) have "set (map fst bs1) = set (map fst bs2)" by simp
  then have "fst ` set bs1 = fst ` set bs2" by simp
  with False ne assms(1,2) show ?thesis
    by (simp add: determine_result min_first_reports)
qed

theorem determine_num_available_blocks_ignores_secondary_witness:
  "fst (determine_num_available_blocks (dispatch mock_endpoint)
          (start (pool_of (map reporting [(100, 7), (80, 3)]))))
   = fst (determine_num_available_blocks (dispatch mock_endpoint)
          (start (pool_of (map reporting [(100, 0), (80, 64)]))))"
proof -
  have h1: "fst (dispatch mock_endpoint (mk_call ''determine_num_available_blocks'' [] [])
             (tstate (start (pool_of (map reporting [(100, 7), (80, 3)])))))
           = Inr (map report [(100, 7), (80, 3)])"
    by (simp add: dispatch_def mock_endpoint_def mk_call_def reporting_def start_def)
  have h2: "fst (dispatch mock_endpoint (mk_call ''determine_num_available_blocks'' [] [])
             (tstate (start (pool_of (map reporting [(100, 0), (80, 64)])))))
           = Inr (map report [(100, 0), (80, 64)])"
    by (simp add: dispatch_def mock_endpoint_def mk_call_def reporting_def start_def)
  have p: "map fst [(100, 7), (80, 3)] = map fst [(100 :: int, 0 :: int), (80, 64)]"
    by simp
  from determine_num_available_blocks_ignores_secondary
         [of "dispatch mock_endpoint" "start (pool_of (map reporting [(100, 7), (80, 3)]))"
             "[(100, 7), (80, 3)]"
             "dispatch mock_endpoint" "start (pool_of (map reporting [(100, 0), (80, 64)]))"
             "[(100, 0), (80, 64)]", OF h1 h2 p]
  show ?thesis .
qed

text \<open>
  Claim C2, as amended. The method has no positivity check: whenever the dispatch
  returns reports of which at least one has a non-positive primary-block count, it
  returns the pair of the minimum of the reports and 0, and that minimum is
  non-positive. It does not raise.
\<close>

theorem determine_num_available_blocks_returns_non_positive:
  assumes "fst (rw (mk_call ''determine_num_available_blocks'' [] []) (tstate s))
             = Inr (map report bs)"
    and "b \<in> set bs" and "fst b \<le> 0"
  shows "fst (determine_num_available_blocks rw s) = Inr (Min (fst ` set bs), 0)
         \<and> Min (fst ` set bs) \<le> 0"
proof -
  from assms(2) have ne: "bs \<noteq> []" by auto
  with assms(1) have "fst (determine_num_available_blocks rw s) = Inr (Min (fst ` set bs), 0)"
    by (simp add: determine_result min_first_reports)
  moreover from assms(2) have "Min (fst ` set bs) \<le> fst b" by simp
  with assms(3) have "Min (fst ` set bs) \<le> 0" by linarith
  ultimately show ?thesis by simp
qed

theorem determine_num_available_blocks_returns_non_positive_witness:
  "fst (determine_num_available_blocks (dispatch mock_endpoint)
          (start (pool_of (map healthy [0])))) = Inr (0, 0)"
proof -
  have h: "fst (dispatch mock_endpoint (mk_call ''determine_num_available_blocks'' [] [])
             (tstate (start (pool_of (map healthy [0]))))) = Inr (map report [(0, 0)])"
    by (simp add: dispatch_def mock_endpoint_def mk_call_def healthy_def start_def)
  have m: "(0, 0) \<in> set [(0 :: int, 0 :: int)]" by simp
  have z: "fst (0 :: int, 0 :: int) \<le> 0" by simp
  from determine_num_available_blocks_returns_non_positive
         [of "dispatch mock_endpoint" "start (pool_of (map healthy [0]))" "[(0, 0)]" "(0, 0)",
          OF h m z]
  show ?thesis by simp
qed

text \<open>
  Claim C2 as stated fails: with reports 100, 0, 120 and 90 the method returns
  \<open>(0, 0)\<close> instead of raising.
\<close>

theorem non_positive_report_counterexample:
  "fst (determine_num_available_blocks (dispatch mock_endpoint)
          (start (pool_of (map healthy [100, 0, 120, 90])))) = Inr (0, 0)"
  by (simp add: determine_result dispatch_def mock_endpoint_def mk_call_def healthy_def
      start_def report_def)

subsection \<open>The abstract methods\<close>

text \<open>
  Claim C9. On the base class every call of \<^verbatim>\<open>execute_model\<close> and of
  \<^verbatim>\<open>check_health\<close> raises \<^verbatim>\<open>NotImplementedError\<close> and leaves the state as it was.
\<close>

theorem base_execute_model_check_health_raise:
  "execute_model scheduler_output s = (Inl NotImplementedError, s)
   \<and> check_health s = (Inl NotImplementedError, s)"
  by (simp add: execute_model_def check_health_def)

text \<open>
  With the base class's own \<^verbatim>\<open>_run_workers\<close> the capacity negotiation raises as
  well.
\<close>

lemma base_determine_num_available_blocks_raises:
  "fst (determine_num_available_blocks base_run_workers s) = Inl NotImplementedError"
  by (simp add: determine_result base_run_workers_def)

subsection \<open>Cache initialisation\<close>

lemma run_workers_eq:
  "run_workers rw c s =
     (fst (rw c (tstate s)),
      \<lparr>trace = trace s @ dispatch_events rw c (tstate s),
       tstate = fst (snd (rw c (tstate s)))\<rparr>)"
  by (simp add: run_workers_def dispatch_events_def split: prod.splits)

lemma initialize_cache_eq:
  "initialize_cache rw n s =
     (case fst (rw (mk_call ''initialize_cache'' [AInt n] []) (tstate s)) of
        Inl e \<Rightarrow>
          (Inl e,
           \<lparr>trace = trace s @ Logged ''# GPU blocks: %d'' [AInt n] #
              dispatch_events rw (mk_call ''initialize_cache'' [AInt n] []) (tstate s),
            tstate = fst (snd (rw (mk_call ''initialize_cache'' [AInt n] []) (tstate s)))\<rparr>)
      | Inr vs \<Rightarrow>
          (case fst (rw (mk_call ''compile_or_warm_up_model'' [] [])
                      (fst (snd (rw (mk_call ''initialize_cache'' [AInt n] []) (tstate s))))) of
             Inl e \<Rightarrow> Inl e
           | Inr ws \<Rightarrow> Inr (),
           \<lparr>trace = trace s @ Logged ''# GPU blocks: %d'' [AInt n] #
              dispatch_events rw (mk_call ''initialize_cache'' [AInt n] []) (tstate s) @
              dispatch_events rw (mk_call ''compile_or_warm_up_model'' [] [])
                (fst (snd (rw (mk_call ''initialize_cache'' [AInt n] []) (tstate s)))),
            tstate = fst (snd (rw (mk_call ''compile_or_warm_up_model'' [] [])
                      (fst (snd (rw (mk_call ''initialize_cache'' [AInt n] []) (tstate s))))))\<rparr>))"
  by (simp add: initialize_cache_def run_workers_eq logger_info_def Let_def
      split: sum.splits)

text \<open>The trace only grows: a run of the method appends its events.\<close>

lemma initialize_cache_trace_extends:
  "trace (snd (initialize_cache rw n s))
     = trace s @ new_events s (snd (initialize_cache rw n s))"
  by (simp add: new_events_def initialize_cache_eq split: sum.splits)

lemma dispatch_events_not_logged: "filter is_logged (dispatch_events rw c t) = []"
  by (simp add: dispatch_events_def split: sum.splits)

lemma dispatch_events_Cons: "dispatch_events rw c t = Issued c # tl (dispatch_events rw c t)"
  by (simp add: dispatch_events_def)

lemma dispatch_events_tl_not_logged: "filter is_logged (tl (dispatch_events rw c t)) = []"
  by (simp add: dispatch_events_def split: sum.splits)

text \<open>
  Claim C6. Every run of \<^verbatim>\<open>initialize_cache\<close>, over any transport, appends to the
  trace the log record of the cache size first, then the issue of the first dispatch,
  and no further log record: the size is logged exactly once and before any dispatch.
\<close>

theorem initialize_cache_logs_once_first:
  "\<exists>rest. new_events s (snd (initialize_cache rw n s))
            = Logged ''# GPU blocks: %d'' [AInt n] #
              Issued (mk_call ''initialize_cache'' [AInt n] []) # rest
          \<and> filter is_logged rest = []"
proof -
  let ?c1 = "mk_call ''initialize_cache'' [AInt n] []"
  let ?c2 = "mk_call ''compile_or_warm_up_model'' [] []"
  let ?t1 = "fst (snd (rw ?c1 (tstate s)))"
  let ?new = "new_events s (snd (initialize_cache rw n s))"
  let ?log = "Logged ''# GPU blocks: %d'' [AInt n]"
  have hd1: "dispatch_events rw ?c1 (tstate s)
             = Issued ?c1 # tl (dispatch_events rw ?c1 (tstate s))"
    by (rule dispatch_events_Cons)
  show ?thesis
  proof (cases "fst (rw ?c1 (tstate s))")
    case (Inl e)
    then have "?new = ?log # dispatch_events rw ?c1 (tstate s)"
      by (simp add: new_events_def initialize_cache_eq)
    with hd1 have "?new = ?log # Issued ?c1 # tl (dispatch_events rw ?c1 (tstate s))"
      by simp
    moreover have "filter is_logged (tl (dispatch_events rw ?c1 (tstate s))) = []"
      by (rule dispatch_events_tl_not_logged)
    ultimately show ?thesis by (intro exI conjI)
  next
    case (Inr vs)
    then have "?new = ?log # dispatch_events rw ?c1 (tstate s) @ dispatch_events rw ?c2 ?t1"
      by (simp add: new_events_def initialize_cache_eq)
    with hd1 have "?new = ?log # Issued ?c1 #
        (tl (dispatch_events rw ?c1 (tstate s)) @ dispatch_events rw ?c2 ?t1)"
      by simp
    moreover have "filter is_logged
        (tl (dispatch_events rw ?c1 (tstate s)) @ dispatch_events rw ?c2 ?t1) = []"
      by (simp add: dispatch_events_tl_not_logged dispatch_events_not_logged)
    ultimately show ?thesis by (intro exI conjI)
  qed
qed

theorem initialize_cache_logs_once_first_witness:
  "filter is_logged (new_events (start (pool_of (map healthy [100, 80, 120, 90])))
      (snd (initialize_cache (dispatch mock_endpoint) 80
              (start (pool_of (map healthy [100, 80, 120, 90]))))))
   = [Logged ''# GPU blocks: %d'' [AInt 80]]"
proof -
  from initialize_cache_logs_once_first
         [of "start (pool_of (map healthy [100, 80, 120, 90]))" "dispatch mock_endpoint" 80]
  obtain rest where
    "new_events (start (pool_of (map healthy [100, 80, 120, 90])))
      (snd (initialize_cache (dispatch mock_endpoint) 80
              (start (pool_of (map healthy [100, 80, 120, 90])))))
     = Logged ''# GPU blocks: %d'' [AInt 80] #
       Issued (mk_call ''initialize_cache'' [AInt 80] []) # rest"
    and "filter is_logged rest = []"
    by (elim exE conjE)
  then show ?thesis by simp
qed


subsection \<open>The dispatcher\<close>

text \<open>
  What one synchronous fan-out does: every event it emits belongs to the dispatched
  operation, every worker of the pool is run on the request, a success of the whole
  fan-out means that every worker completed, and the failure reported is the first one
  in pool order.
\<close>

lemma invoke_from_events_op:
  "e \<in> set (snd (snd (invoke_from ep c k pool))) \<Longrightarrow> wevent_op e = method_name c"
proof (induction pool arbitrary: k)
  case Nil
  then show ?case by simp
next
  case (Cons h hs)
  obtain r w where h: "h = (r, w)" by (cases h)
  from Cons.prems Cons.IH [of "Suc k"] show ?case
    by (auto simp: h split: prod.splits sum.splits)
qed

lemma invoke_from_completed:
  "gather (fst (invoke_from ep c k pool)) = Inr vs \<Longrightarrow> i < length pool \<Longrightarrow>
   Completed (k + i) (method_name c) \<in> set (snd (snd (invoke_from ep c k pool)))"
proof (induction pool arbitrary: k i vs)
  case Nil
  then show ?case by simp
next
  case (Cons h hs)
  obtain r w where h: "h = (r, w)" by (cases h)
  obtain out w' where ep: "ep c w = (out, w')" by (cases "ep c w")
  obtain outs hs' evs where rest: "invoke_from ep c (Suc k) hs = (outs, hs', evs)"
    by (cases "invoke_from ep c (Suc k) hs")
  from Cons.prems(1) obtain v vs' where out: "out = Inr v" and g: "gather outs = Inr vs'"
    by (cases out; cases "gather outs") (simp_all add: h ep rest)
  show ?case
  proof (cases i)
    case 0
    then show ?thesis by (simp add: h ep rest out)
  next
    case (Suc i')
    with Cons.prems(2) have "i' < length hs" by simp
    with Cons.IH [of "Suc k" vs' i'] g rest
    have "Completed (Suc k + i') (method_name c) \<in> set evs" by simp
    with Suc show ?thesis by (simp add: h ep rest out)
  qed
qed

lemma gather_first_failure:
  "i < length pool \<Longrightarrow> fst (ep c (snd (pool ! i))) = Inl cause \<Longrightarrow>
   \<forall>j<i. \<not> isl (fst (ep c (snd (pool ! j)))) \<Longrightarrow>
   gather (fst (invoke_from ep c k pool)) = Inl (k + i, cause)"
proof (induction pool arbitrary: k i)
  case Nil
  then show ?case by simp
next
  case (Cons h hs)
  obtain r w where h: "h = (r, w)" by (cases h)
  obtain out w' where ep: "ep c w = (out, w')" by (cases "ep c w")
  obtain outs hs' evs where rest: "invoke_from ep c (Suc k) hs = (outs, hs', evs)"
    by (cases "invoke_from ep c (Suc k) hs")
  show ?case
  proof (cases i)
    case 0
    with Cons.prems(2) have "out = Inl cause" by (simp add: h ep)
    with 0 show ?thesis by (simp add: h ep rest)
  next
    case (Suc i')
    from Cons.prems(3) Suc have "\<not> isl (fst (ep c (snd ((h # hs) ! 0))))" by blast
    then obtain v where out: "out = Inr v" by (cases out) (simp_all add: h ep)
    from Cons.prems(1) Suc have a: "i' < length hs" by simp
    from Cons.prems(2) Suc have b: "fst (ep c (snd (hs ! i'))) = Inl cause" by simp
    have c: "\<forall>j<i'. \<not> isl (fst (ep c (snd (hs ! j))))"
    proof (intro allI impI)
      fix j assume "j < i'"
      then have "Suc j < i" using Suc by simp
      with Cons.prems(3) have "\<not> isl (fst (ep c (snd ((h # hs) ! Suc j))))" by blast
      then show "\<not> isl (fst (ep c (snd (hs ! j))))" by simp
    qed
    from Cons.IH [OF a b c, of "Suc k"] rest
    have "gather outs = Inl (Suc k + i', cause)" by simp
    with Suc show ?thesis by (simp add: h ep rest out)
  qed
qed

lemma gather_some_failure:
  "i < length pool \<Longrightarrow> isl (fst (ep c (snd (pool ! i)))) \<Longrightarrow>
   isl (gather (fst (invoke_from ep c k pool)))"
proof (induction pool arbitrary: k i)
  case Nil
  then show ?case by simp
next
  case (Cons h hs)
  obtain r w where h: "h = (r, w)" by (cases h)
  obtain out w' where ep: "ep c w = (out, w')" by (cases "ep c w")
  obtain outs hs' evs where rest: "invoke_from ep c (Suc k) hs = (outs, hs', evs)"
    by (cases "invoke_from ep c (Suc k) hs")
  show ?case
  proof (cases out)
    case (Inl cause)
    then show ?thesis by (simp add: h ep rest)
  next
    case (Inr v)
    with Cons.prems(2) obtain i' where i: "i = Suc i'"
      by (cases i) (simp_all add: h ep)
    with Cons.prems have "i' < length hs" and "isl (fst (ep c (snd (hs ! i'))))" by simp_all
    from Cons.IH [OF this, of "Suc k"] rest have "isl (gather outs)" by simp
    with Inr show ?thesis by (cases "gather outs") (simp_all add: h ep rest)
  qed
qed

lemma invoke_from_pool:
  "fst (snd (invoke_from ep c k pool)) = map (\<lambda>h. (fst h, snd (ep c (snd h)))) pool"
proof (induction pool arbitrary: k)
  case Nil
  show ?case by simp
next
  case (Cons h hs)
  obtain r w where h: "h = (r, w)" by (cases h)
  from Cons.IH [of "Suc k"] show ?case
    by (auto simp: h split: prod.splits)
qed

lemma gather_all_ok:
  "\<forall>h \<in> set pool. \<not> isl (fst (ep c (snd h))) \<Longrightarrow>
   \<not> isl (gather (fst (invoke_from ep c k pool)))"
proof (induction pool arbitrary: k)
  case Nil
  show ?case by simp
next
  case (Cons h hs)
  obtain r w where h: "h = (r, w)" by (cases h)
  obtain out w' where ep: "ep c w = (out, w')" by (cases "ep c w")
  obtain outs hs' evs where rest: "invoke_from ep c (Suc k) hs = (outs, hs', evs)"
    by (cases "invoke_from ep c (Suc k) hs")
  from Cons.prems obtain v where out: "out = Inr v" by (cases out) (simp_all add: h ep)
  from Cons.prems have "\<forall>h \<in> set hs. \<not> isl (fst (ep c (snd h)))" by simp
  from Cons.IH [OF this, of "Suc k"] rest have "\<not> isl (gather outs)" by simp
  then show ?case by (cases "gather outs") (simp_all add: h ep rest out)
qed


lemma dispatch_sync:
  "\<not> async_run_tensor_parallel_workers_only c \<Longrightarrow>
   dispatch ep c pool =
     (case gather (fst (invoke_from ep c 0 pool)) of
        Inl f \<Rightarrow> Inl (WorkerExecutionError (fst f) (method_name c) (snd f))
      | Inr vs \<Rightarrow> Inr vs,
      fst (snd (invoke_from ep c 0 pool)),
      snd (snd (invoke_from ep c 0 pool)))"
  by (simp add: dispatch_def split: prod.splits sum.splits)

lemma dispatch_worker_events_op:
  "w \<in> set (snd (snd (dispatch ep c pool))) \<Longrightarrow> wevent_op w = method_name c"
proof (cases "async_run_tensor_parallel_workers_only c")
  case True
  assume "w \<in> set (snd (snd (dispatch ep c pool)))"
  with True show ?thesis by (auto simp: dispatch_def)
next
  case False
  assume "w \<in> set (snd (snd (dispatch ep c pool)))"
  with False show ?thesis by (simp add: dispatch_sync invoke_from_events_op)
qed

lemma dispatch_events_op:
  "e \<in> set (dispatch_events (dispatch ep) c pool) \<Longrightarrow> event_op e = Some (method_name c)"
  by (auto simp: dispatch_events_def dispatch_worker_events_op split: sum.splits)

text \<open>
  A list lemma for traces of two phases: an event of the second phase's operation
  stands after every event of the first phase.
\<close>

lemma two_phase_order:
  assumes new: "new = l # d1 @ d2"
    and l: "event_op l \<noteq> Some m"
    and d1: "\<forall>e \<in> set d1. event_op e \<noteq> Some m"
    and x: "x \<in> set d1"
    and p: "p < length new" "event_op (new ! p) = Some m"
  shows "\<exists>q<p. new ! q = x"
proof -
  have "\<not> p < Suc (length d1)"
  proof
    assume "p < Suc (length d1)"
    then have "new ! p \<in> set (l # d1)"
      by (cases p) (simp_all add: new nth_append)
    with l d1 p(2) show False by auto
  qed
  then have far: "Suc (length d1) \<le> p" by simp
  from x obtain q' where q': "q' < length d1" "d1 ! q' = x"
    by (auto simp: in_set_conv_nth)
  then have "new ! Suc q' = x" by (simp add: new nth_append)
  moreover from q' far have "Suc q' < p" by simp
  ultimately show ?thesis by blast
qed

subsection \<open>Ordering of the two dispatches of cache initialisation\<close>

lemma init_events:
  "new_events s (snd (initialize_cache rw n s)) =
     Logged ''# GPU blocks: %d'' [AInt n] #
     dispatch_events rw (mk_call ''initialize_cache'' [AInt n] []) (tstate s) @
     (case fst (rw (mk_call ''initialize_cache'' [AInt n] []) (tstate s)) of
        Inl e \<Rightarrow> []
      | Inr vs \<Rightarrow>
          dispatch_events rw (mk_call ''compile_or_warm_up_model'' [] [])
            (fst (snd (rw (mk_call ''initialize_cache'' [AInt n] []) (tstate s)))))"
  by (simp add: new_events_def initialize_cache_eq split: sum.splits)

lemma init_result_failure:
  "fst (rw (mk_call ''initialize_cache'' [AInt n] []) (tstate s)) = Inl e \<Longrightarrow>
   fst (initialize_cache rw n s) = Inl e"
  by (simp add: initialize_cache_eq)

lemma init_call_op: "method_name (mk_call ''initialize_cache'' as kw) \<noteq> ''compile_or_warm_up_model''"
  by (simp add: mk_call_def)

lemma init_call_sync: "\<not> async_run_tensor_parallel_workers_only (mk_call m as kw)"
  by (simp add: mk_call_def)

text \<open>
  Claim C3. In every run of \<^verbatim>\<open>initialize_cache\<close> over the synchronous dispatcher,
  any event of the warm-up operation \<^verbatim>\<open>compile_or_warm_up_model\<close> (its issue, or its
  invocation on a worker) stands in the trace after the completion of
  \<^verbatim>\<open>initialize_cache\<close> on every worker of the pool, and after the return of the
  initialisation dispatch.
\<close>

theorem initialize_cache_warm_up_after_init:
  assumes p: "p < length (new_events s (snd (initialize_cache (dispatch ep) n s)))"
    and warm: "event_op (new_events s (snd (initialize_cache (dispatch ep) n s)) ! p)
                 = Some ''compile_or_warm_up_model''"
    and i: "i < length (tstate s)"
  shows "(\<exists>q<p. new_events s (snd (initialize_cache (dispatch ep) n s)) ! q
                   = Worker (Completed i ''initialize_cache''))
       \<and> (\<exists>q<p. new_events s (snd (initialize_cache (dispatch ep) n s)) ! q
                   = Returned ''initialize_cache'')"
proof -
  let ?c1 = "mk_call ''initialize_cache'' [AInt n] []"
  let ?c2 = "mk_call ''compile_or_warm_up_model'' [] []"
  let ?m2 = "''compile_or_warm_up_model''"
  let ?new = "new_events s (snd (initialize_cache (dispatch ep) n s))"
  let ?log = "Logged ''# GPU blocks: %d'' [AInt n]"
  let ?d1 = "dispatch_events (dispatch ep) ?c1 (tstate s)"
  have m1: "method_name ?c1 = ''initialize_cache''" by (simp add: mk_call_def)
  have sync: "\<not> async_run_tensor_parallel_workers_only ?c1" by (rule init_call_sync)
  have d1_op: "\<forall>e \<in> set ?d1. event_op e \<noteq> Some ?m2"
  proof
    fix e assume "e \<in> set ?d1"
    then have "event_op e = Some (method_name ?c1)" by (rule dispatch_events_op)
    with init_call_op [of "[AInt n]" "[]"] show "event_op e \<noteq> Some ?m2" by simp
  qed
  have log_op: "event_op ?log \<noteq> Some ?m2" by simp
  show ?thesis
  proof (cases "fst (dispatch ep ?c1 (tstate s))")
    case (Inl e)
    then have new: "?new = ?log # ?d1" by (simp add: init_events)
    with p have "?new ! p \<in> set (?log # ?d1)" by (metis nth_mem)
    with d1_op log_op have "event_op (?new ! p) \<noteq> Some ?m2" by auto
    with warm show ?thesis by simp
  next
    case (Inr vs)
    let ?d2 = "dispatch_events (dispatch ep) ?c2 (fst (snd (dispatch ep ?c1 (tstate s))))"
    from Inr have new: "?new = ?log # ?d1 @ ?d2" by (simp add: init_events)
    from Inr sync have g: "gather (fst (invoke_from ep ?c1 0 (tstate s))) = Inr vs"
      by (simp add: dispatch_sync split: sum.splits)
    from invoke_from_completed [OF g i]
    have "Completed i ''initialize_cache'' \<in> set (snd (snd (dispatch ep ?c1 (tstate s))))"
      using sync by (simp add: dispatch_sync m1)
    then have c_in: "Worker (Completed i ''initialize_cache'') \<in> set ?d1"
      by (simp add: dispatch_events_def)
    from Inr have r_in: "Returned ''initialize_cache'' \<in> set ?d1"
      by (simp add: dispatch_events_def m1)
    from two_phase_order [OF new log_op d1_op c_in p warm]
      two_phase_order [OF new log_op d1_op r_in p warm]
    show ?thesis by (intro conjI)
  qed
qed

text \<open>
  The trace of a run on four healthy workers: the warm-up is issued at position 11,
  after the fourth worker completed the initialisation.
\<close>

lemma demo_trace:
  "new_events (start (pool_of (map healthy [100, 80, 120, 90])))
     (snd (initialize_cache (dispatch mock_endpoint) 80
             (start (pool_of (map healthy [100, 80, 120, 90]))))) =
   [Logged ''# GPU blocks: %d'' [AInt 80],
    Issued (mk_call ''initialize_cache'' [AInt 80] []),
    Worker (Invoked 0 ''initialize_cache''), Worker (Completed 0 ''initialize_cache''),
    Worker (Invoked 1 ''initialize_cache''), Worker (Completed 1 ''initialize_cache''),
    Worker (Invoked 2 ''initialize_cache''), Worker (Completed 2 ''initialize_cache''),
    Worker (Invoked 3 ''initialize_cache''), Worker (Completed 3 ''initialize_cache''),
    Returned ''initialize_cache'',
    Issued (mk_call ''compile_or_warm_up_model'' [] []),
    Worker (Invoked 0 ''compile_or_warm_up_model''),
    Worker (Completed 0 ''compile_or_warm_up_model''),
    Worker (Invoked 1 ''compile_or_warm_up_model''),
    Worker (Completed 1 ''compile_or_warm_up_model''),
    Worker (Invoked 2 ''compile_or_warm_up_model''),
    Worker (Completed 2 ''compile_or_warm_up_model''),
    Worker (Invoked 3 ''compile_or_warm_up_model''),
    Worker (Completed 3 ''compile_or_warm_up_model''),
    Returned ''compile_or_warm_up_model'']"
  by (simp add: init_events dispatch_events_def dispatch_def mock_endpoint_def
      mk_call_def healthy_def start_def)

theorem initialize_cache_warm_up_after_init_witness:
  "new_events (start (pool_of (map healthy [100, 80, 120, 90])))
     (snd (initialize_cache (dispatch mock_endpoint) 80
             (start (pool_of (map healthy [100, 80, 120, 90]))))) ! 11
   = Issued (mk_call ''compile_or_warm_up_model'' [] [])
   \<and> (\<exists>q<11. new_events (start (pool_of (map healthy [100, 80, 120, 90])))
         (snd (initialize_cache (dispatch mock_endpoint) 80
                 (start (pool_of (map healthy [100, 80, 120, 90]))))) ! q
       = Worker (Completed 3 ''initialize_cache''))"
proof -
  let ?s = "start (pool_of (map healthy [100, 80, 120, 90]))"
  let ?new = "new_events ?s (snd (initialize_cache (dispatch mock_endpoint) 80 ?s))"
  have at: "?new ! 11 = Issued (mk_call ''compile_or_warm_up_model'' [] [])"
    by (subst demo_trace) simp
  have p: "11 < length ?new" by (subst demo_trace) simp
  have warm: "event_op (?new ! 11) = Some ''compile_or_warm_up_model''"
    by (subst at) (simp add: mk_call_def)
  have i: "3 < length (tstate ?s)" by (simp add: start_def)
  from initialize_cache_warm_up_after_init [OF p warm i]
  have ex: "\<exists>q<11. ?new ! q = Worker (Completed 3 ''initialize_cache'')"
    by (rule conjunct1)
  from at ex show ?thesis by (rule conjI)
qed

lemma warm_free_iff:
  "(\<forall>e \<in> set es. event_op e \<noteq> Some m) \<Longrightarrow> filter (\<lambda>e. event_op e = Some m) es = []"
  by (simp add: filter_empty_conv)

text \<open>
  Claim C4. If \<^verbatim>\<open>initialize_cache\<close> fails on some worker of the pool, the method
  raises, and no event of the warm-up operation enters the trace: the warm-up is
  issued to no worker. If that worker is the first of the pool to fail, the error
  raised is the worker-execution failure naming its index, the operation
  \<^verbatim>\<open>initialize_cache\<close> and its cause.
\<close>

theorem initialize_cache_failure_stops:
  assumes i: "i < length (tstate s)"
    and fail: "fst (ep (mk_call ''initialize_cache'' [AInt n] []) (snd (tstate s ! i)))
                 = Inl cause"
  shows "isl (fst (initialize_cache (dispatch ep) n s))
       \<and> ((\<forall>j<i. \<not> isl (fst (ep (mk_call ''initialize_cache'' [AInt n] [])
                                  (snd (tstate s ! j))))) \<longrightarrow>
            fst (initialize_cache (dispatch ep) n s)
              = Inl (WorkerExecutionError i ''initialize_cache'' cause))
       \<and> (\<forall>e \<in> set (new_events s (snd (initialize_cache (dispatch ep) n s))).
             event_op e \<noteq> Some ''compile_or_warm_up_model'')"
proof -
  let ?c1 = "mk_call ''initialize_cache'' [AInt n] []"
  let ?m2 = "''compile_or_warm_up_model''"
  let ?new = "new_events s (snd (initialize_cache (dispatch ep) n s))"
  let ?log = "Logged ''# GPU blocks: %d'' [AInt n]"
  let ?d1 = "dispatch_events (dispatch ep) ?c1 (tstate s)"
  have m1: "method_name ?c1 = ''initialize_cache''" by (simp add: mk_call_def)
  have sync: "\<not> async_run_tensor_parallel_workers_only ?c1" by (rule init_call_sync)
  from fail have "isl (fst (ep ?c1 (snd (tstate s ! i))))" by simp
  from gather_some_failure [where ep = ep and c = ?c1 and pool = "tstate s" and i = i
      and k = 0, OF i this]
  obtain f where g: "gather (fst (invoke_from ep ?c1 0 (tstate s))) = Inl f"
    by (cases "gather (fst (invoke_from ep ?c1 0 (tstate s)))") simp_all
  with sync have raised: "fst (dispatch ep ?c1 (tstate s))
      = Inl (WorkerExecutionError (fst f) ''initialize_cache'' (snd f))"
    by (simp add: dispatch_sync m1)
  then have res: "fst (initialize_cache (dispatch ep) n s)
      = Inl (WorkerExecutionError (fst f) ''initialize_cache'' (snd f))"
    by (rule init_result_failure)
  then have 1: "isl (fst (initialize_cache (dispatch ep) n s))" by simp
  have 2: "(\<forall>j<i. \<not> isl (fst (ep ?c1 (snd (tstate s ! j))))) \<longrightarrow>
        fst (initialize_cache (dispatch ep) n s)
          = Inl (WorkerExecutionError i ''initialize_cache'' cause)"
  proof
    assume "\<forall>j<i. \<not> isl (fst (ep ?c1 (snd (tstate s ! j))))"
    from gather_first_failure [where ep = ep and c = ?c1 and pool = "tstate s" and i = i
        and k = 0 and cause = cause, OF i fail this] g have "f = (i, cause)" by simp
    with res show "fst (initialize_cache (dispatch ep) n s)
          = Inl (WorkerExecutionError i ''initialize_cache'' cause)" by simp
  qed
  from raised have new: "?new = ?log # ?d1" by (simp add: init_events)
  have 3: "\<forall>e \<in> set ?new. event_op e \<noteq> Some ?m2"
  proof
    fix e assume "e \<in> set ?new"
    with new have "e = ?log \<or> e \<in> set ?d1" by simp
    then show "event_op e \<noteq> Some ?m2"
    proof
      assume "e = ?log"
      then show ?thesis by simp
    next
      assume "e \<in> set ?d1"
      then have "event_op e = Some (method_name ?c1)" by (rule dispatch_events_op)
      with init_call_op [of "[AInt n]" "[]"] show ?thesis by simp
    qed
  qed
  from 1 2 3 show ?thesis by (intro conjI)
qed

text \<open>
  The scenario of the spec: worker 2 of four fails the initialisation with cause
  "out of memory".
\<close>

theorem initialize_cache_failure_stops_witness:
  "fst (initialize_cache (dispatch mock_endpoint) 80
          (start (pool_of [healthy 100, healthy 80,
                           faulty 120 ''initialize_cache'' ''out of memory'', healthy 90])))
     = Inl (WorkerExecutionError 2 ''initialize_cache'' ''out of memory'')
   \<and> filter (\<lambda>e. event_op e = Some ''compile_or_warm_up_model'')
        (new_events
          (start (pool_of [healthy 100, healthy 80,
                           faulty 120 ''initialize_cache'' ''out of memory'', healthy 90]))
          (snd (initialize_cache (dispatch mock_endpoint) 80
                 (start (pool_of [healthy 100, healthy 80,
                           faulty 120 ''initialize_cache'' ''out of memory'', healthy 90])))))
     = []"
proof -
  let ?s = "start (pool_of [healthy 100, healthy 80,
                           faulty 120 ''initialize_cache'' ''out of memory'', healthy 90])"
  let ?c1 = "mk_call ''initialize_cache'' [AInt 80] []"
  have i: "2 < length (tstate ?s)" by (simp add: start_def)
  have fail: "fst (mock_endpoint ?c1 (snd (tstate ?s ! 2))) = Inl ''out of memory''"
    by (simp add: start_def mock_endpoint_def faulty_def mk_call_def)
  have first: "\<forall>j<2. \<not> isl (fst (mock_endpoint ?c1 (snd (tstate ?s ! j))))"
  proof (intro allI impI)
    fix j :: nat assume "j < 2"
    then have "j = 0 \<or> j = 1" by auto
    then show "\<not> isl (fst (mock_endpoint ?c1 (snd (tstate ?s ! j))))"
      by (auto simp: start_def mock_endpoint_def healthy_def mk_call_def)
  qed
  note t = initialize_cache_failure_stops
             [where ep = mock_endpoint and n = 80 and s = ?s and i = 2
                and cause = "''out of memory''", OF i fail]
  from t first have a: "fst (initialize_cache (dispatch mock_endpoint) 80 ?s)
      = Inl (WorkerExecutionError 2 ''initialize_cache'' ''out of memory'')"
    by (elim conjE impE)
  from t have "\<forall>e \<in> set (new_events ?s (snd (initialize_cache (dispatch mock_endpoint) 80 ?s))).
      event_op e \<noteq> Some ''compile_or_warm_up_model''"
    by (elim conjE)
  then have b: "filter (\<lambda>e. event_op e = Some ''compile_or_warm_up_model'')
      (new_events ?s (snd (initialize_cache (dispatch mock_endpoint) 80 ?s))) = []"
    by (rule warm_free_iff)
  from a b show ?thesis by (rule conjI)
qed

subsection \<open>Checkpointing\<close>

lemma dispatch_events_issued:
  "filter is_issued (dispatch_events rw c t) = [Issued c]"
  by (simp add: dispatch_events_def split: sum.splits)

lemma save_sharded_state_eq:
  "save_sharded_state rw path pattern max_size s =
     (case fst (rw (save_call path pattern max_size) (tstate s)) of
        Inl e \<Rightarrow> Inl e
      | Inr vs \<Rightarrow> Inr (),
      \<lparr>trace = trace s @ dispatch_events rw (save_call path pattern max_size) (tstate s),
       tstate = fst (snd (rw (save_call path pattern max_size) (tstate s)))\<rparr>)"
  by (simp add: save_sharded_state_def run_workers_eq split: sum.splits)

text \<open>
  Claim C5. \<^verbatim>\<open>save_sharded_state\<close> issues exactly one dispatch: the operation
  \<^verbatim>\<open>save_sharded_state\<close> in synchronous mode, with no positional argument and with
  \<^verbatim>\<open>path\<close>, \<^verbatim>\<open>pattern\<close> and \<^verbatim>\<open>max_size\<close> forwarded unchanged as keyword
  arguments: the string \<^verbatim>\<open>path\<close> as it is, \<^verbatim>\<open>None\<close> as \<^verbatim>\<open>None\<close>, a pattern \<open>p\<close> as
  the string \<open>p\<close>, a size \<open>n\<close> as the integer \<open>n\<close>. Every worker of the pool is run
  on that request once. The method returns no value (its result type is \<open>unit\<close>),
  and when every worker succeeds it returns without error.
\<close>

theorem save_sharded_state_single_dispatch:
  "filter is_issued
     (new_events s (snd (save_sharded_state (dispatch ep) path pattern max_size s)))
     = [Issued \<lparr>method_name = ''save_sharded_state'', args = [],
                kwargs = [(''path'', AStr path),
                          (''pattern'', case pattern of None \<Rightarrow> ANone | Some p \<Rightarrow> AStr p),
                          (''max_size'', case max_size of None \<Rightarrow> ANone | Some k \<Rightarrow> AInt k)],
                async_run_tensor_parallel_workers_only = False,
                max_concurrent_workers = None\<rparr>]
   \<and> tstate (snd (save_sharded_state (dispatch ep) path pattern max_size s))
     = map (\<lambda>h. (fst h,
          snd (ep \<lparr>method_name = ''save_sharded_state'', args = [],
                kwargs = [(''path'', AStr path),
                          (''pattern'', case pattern of None \<Rightarrow> ANone | Some p \<Rightarrow> AStr p),
                          (''max_size'', case max_size of None \<Rightarrow> ANone | Some k \<Rightarrow> AInt k)],
                async_run_tensor_parallel_workers_only = False,
                max_concurrent_workers = None\<rparr> (snd h)))) (tstate s)
   \<and> ((\<forall>h \<in> set (tstate s).
          \<not> isl (fst (ep \<lparr>method_name = ''save_sharded_state'', args = [],
                kwargs = [(''path'', AStr path),
                          (''pattern'', case pattern of None \<Rightarrow> ANone | Some p \<Rightarrow> AStr p),
                          (''max_size'', case max_size of None \<Rightarrow> ANone | Some k \<Rightarrow> AInt k)],
                async_run_tensor_parallel_workers_only = False,
                max_concurrent_workers = None\<rparr> (snd h)))) \<longrightarrow>
        fst (save_sharded_state (dispatch ep) path pattern max_size s) = Inr ())"
proof -
  let ?c = "save_call path pattern max_size"
  have sync: "\<not> async_run_tensor_parallel_workers_only ?c"
    by (simp add: save_call_def init_call_sync)
  have "new_events s (snd (save_sharded_state (dispatch ep) path pattern max_size s))
        = dispatch_events (dispatch ep) ?c (tstate s)"
    by (simp add: new_events_def save_sharded_state_eq)
  then have 1: "filter is_issued
     (new_events s (snd (save_sharded_state (dispatch ep) path pattern max_size s)))
     = [Issued ?c]"
    by (simp add: dispatch_events_issued)
  have 2: "tstate (snd (save_sharded_state (dispatch ep) path pattern max_size s))
     = map (\<lambda>h. (fst h, snd (ep ?c (snd h)))) (tstate s)"
    using sync by (simp add: save_sharded_state_eq dispatch_sync invoke_from_pool)
  have 3: "(\<forall>h \<in> set (tstate s). \<not> isl (fst (ep ?c (snd h)))) \<longrightarrow>
        fst (save_sharded_state (dispatch ep) path pattern max_size s) = Inr ()"
  proof
    assume "\<forall>h \<in> set (tstate s). \<not> isl (fst (ep ?c (snd h)))"
    then have "\<not> isl (gather (fst (invoke_from ep ?c 0 (tstate s))))"
      by (rule gather_all_ok)
    then obtain vs where "gather (fst (invoke_from ep ?c 0 (tstate s))) = Inr vs"
      by (cases "gather (fst (invoke_from ep ?c 0 (tstate s)))") simp_all
    with sync show "fst (save_sharded_state (dispatch ep) path pattern max_size s) = Inr ()"
      by (simp add: save_sharded_state_eq dispatch_sync)
  qed
  have c: "?c = \<lparr>method_name = ''save_sharded_state'', args = [],
                kwargs = [(''path'', AStr path),
                          (''pattern'', case pattern of None \<Rightarrow> ANone | Some p \<Rightarrow> AStr p),
                          (''max_size'', case max_size of None \<Rightarrow> ANone | Some k \<Rightarrow> AInt k)],
                async_run_tensor_parallel_workers_only = False,
                max_concurrent_workers = None\<rparr>"
    by (cases pattern; cases max_size) (simp_all add: save_call_def mk_call_def)
  from 1 2 3 show ?thesis unfolding c [symmetric] by (intro conjI)
qed

text \<open>
  Two runs on four healthy workers. \<^verbatim>\<open>save_sharded_state("/ckpt", "shard-*", 1024)\<close>
  returns without error, and each worker applied once the request carrying exactly
  these three values. The scenario of the spec,
  \<^verbatim>\<open>save_sharded_state("/ckpt", None, None)\<close>, returns without error as well, and the
  request each worker applied carries \<^verbatim>\<open>None\<close> for both.
\<close>

theorem save_sharded_state_single_dispatch_witness:
  "fst (save_sharded_state (dispatch mock_endpoint) ''/ckpt'' (Some ''shard-*'') (Some 1024)
          (start (pool_of (map healthy [100, 80, 120, 90])))) = Inr ()
   \<and> map (\<lambda>h. applied (snd h))
        (tstate (snd (save_sharded_state (dispatch mock_endpoint) ''/ckpt''
          (Some ''shard-*'') (Some 1024)
          (start (pool_of (map healthy [100, 80, 120, 90]))))))
     = replicate 4
         [\<lparr>method_name = ''save_sharded_state'', args = [],
           kwargs = [(''path'', AStr ''/ckpt''), (''pattern'', AStr ''shard-*''),
                     (''max_size'', AInt 1024)],
           async_run_tensor_parallel_workers_only = False,
           max_concurrent_workers = None\<rparr>]
   \<and> fst (save_sharded_state (dispatch mock_endpoint) ''/ckpt'' None None
          (start (pool_of (map healthy [100, 80, 120, 90])))) = Inr ()
   \<and> map (\<lambda>h. applied (snd h))
        (tstate (snd (save_sharded_state (dispatch mock_endpoint) ''/ckpt'' None None
          (start (pool_of (map healthy [100, 80, 120, 90]))))))
     = replicate 4
         [\<lparr>method_name = ''save_sharded_state'', args = [],
           kwargs = [(''path'', AStr ''/ckpt''), (''pattern'', ANone),
                     (''max_size'', ANone)],
           async_run_tensor_parallel_workers_only = False,
           max_concurrent_workers = None\<rparr>]"
proof -
  let ?s = "start (pool_of (map healthy [100, 80, 120, 90]))"
  let ?c1 = "\<lparr>method_name = ''save_sharded_state'', args = [],
           kwargs = [(''path'', AStr ''/ckpt''), (''pattern'', AStr ''shard-*''),
                     (''max_size'', AInt 1024)],
           async_run_tensor_parallel_workers_only = False,
           max_concurrent_workers = None\<rparr>"
  let ?c0 = "\<lparr>method_name = ''save_sharded_state'', args = [],
           kwargs = [(''path'', AStr ''/ckpt''), (''pattern'', ANone),
                     (''max_size'', ANone)],
           async_run_tensor_parallel_workers_only = False,
           max_concurrent_workers = None\<rparr>"
  note t1 = save_sharded_state_single_dispatch
             [where ep = mock_endpoint and path = "''/ckpt''" and pattern = "Some ''shard-*''"
                and max_size = "Some 1024" and s = ?s, simplified option.case]
  note t0 = save_sharded_state_single_dispatch
             [where ep = mock_endpoint and path = "''/ckpt''" and pattern = None
                and max_size = None and s = ?s, simplified option.case]
  have ok1: "\<forall>h \<in> set (tstate ?s). \<not> isl (fst (mock_endpoint ?c1 (snd h)))"
    by (simp add: start_def mock_endpoint_def healthy_def)
  have ok0: "\<forall>h \<in> set (tstate ?s). \<not> isl (fst (mock_endpoint ?c0 (snd h)))"
    by (simp add: start_def mock_endpoint_def healthy_def)
  from t1 ok1
  have a1: "fst (save_sharded_state (dispatch mock_endpoint) ''/ckpt'' (Some ''shard-*'')
                  (Some 1024) ?s) = Inr ()"
    by (elim conjE impE)
  from t1
  have "tstate (snd (save_sharded_state (dispatch mock_endpoint) ''/ckpt'' (Some ''shard-*'')
                  (Some 1024) ?s))
     = map (\<lambda>h. (fst h, snd (mock_endpoint ?c1 (snd h)))) (tstate ?s)"
    by (elim conjE)
  then have b1: "map (\<lambda>h. applied (snd h))
        (tstate (snd (save_sharded_state (dispatch mock_endpoint) ''/ckpt'' (Some ''shard-*'')
                  (Some 1024) ?s)))
     = replicate 4 [?c1]"
    by (simp add: start_def mock_endpoint_def healthy_def numeral_eq_Suc)
  from t0 ok0
  have a0: "fst (save_sharded_state (dispatch mock_endpoint) ''/ckpt'' None None ?s) = Inr ()"
    by (elim conjE impE)
  from t0
  have "tstate (snd (save_sharded_state (dispatch mock_endpoint) ''/ckpt'' None None ?s))
     = map (\<lambda>h. (fst h, snd (mock_endpoint ?c0 (snd h)))) (tstate ?s)"
    by (elim conjE)
  then have b0: "map (\<lambda>h. applied (snd h))
        (tstate (snd (save_sharded_state (dispatch mock_endpoint) ''/ckpt'' None None ?s)))
     = replicate 4 [?c0]"
    by (simp add: start_def mock_endpoint_def healthy_def numeral_eq_Suc)
  from a1 b1 a0 b0 show ?thesis by (intro conjI)
qed

subsection \<open>Asynchronous dispatch to the remote workers\<close>

lemma remote_from_filter:
  "remote_from k pool
     = map ((+) k) (filter (\<lambda>i. fst (pool ! i) \<noteq> Driver) [0..<length pool])"
proof (induction pool arbitrary: k)
  case Nil
  show ?case by simp
next
  case (Cons h hs)
  obtain r w where h: "h = (r, w)" by (cases h)
  have upt: "[0..<length (h # hs)] = 0 # map Suc [0..<length hs]"
    by (simp add: upt_conv_Cons map_Suc_upt del: upt_Suc)
  have rest: "map ((+) k) (filter (\<lambda>i. fst ((h # hs) ! i) \<noteq> Driver) (map Suc [0..<length hs]))
      = remote_from (Suc k) hs"
    by (simp add: Cons.IH [of "Suc k"] filter_map o_def)
  show ?case
  proof (cases r)
    case Driver
    with rest show ?thesis unfolding upt by (simp add: h)
  next
    case Remote
    with rest show ?thesis unfolding upt by (simp add: h)
  qed
qed

lemma remote_from_length:
  "length (remote_from k pool) + length (filter (\<lambda>h. fst h = Driver) pool) = length pool"
  by (induction k pool rule: remote_from.induct) simp_all

text \<open>
  Claim C7. On a pool with exactly one driver, a dispatch in
  remote-asynchronous-subset mode returns, without raising, one pending handle per
  non-driver worker, in pool order: \<open>N - 1\<close> handles for \<open>N\<close> workers. It launches
  the operation on exactly those workers and runs none of them before it returns:
  the pool comes back unchanged.
\<close>

theorem dispatch_async_remote_only:
  assumes ok: "pool_ok pool"
    and async: "async_run_tensor_parallel_workers_only c"
  shows "fst (dispatch ep c pool)
           = Inr (map RFuture (filter (\<lambda>i. fst (pool ! i) \<noteq> Driver) [0..<length pool]))
       \<and> length (filter (\<lambda>i. fst (pool ! i) \<noteq> Driver) [0..<length pool]) = length pool - 1
       \<and> fst (snd (dispatch ep c pool)) = pool
       \<and> snd (snd (dispatch ep c pool))
           = map (\<lambda>i. Launched i (method_name c))
               (filter (\<lambda>i. fst (pool ! i) \<noteq> Driver) [0..<length pool])"
proof -
  have rw: "remote_workers pool = filter (\<lambda>i. fst (pool ! i) \<noteq> Driver) [0..<length pool]"
  proof -
    have "map ((+) (0::nat)) = (\<lambda>xs. xs)" by (rule ext) (simp add: map_idI)
    then show ?thesis by (simp add: remote_workers_def remote_from_filter)
  qed
  from ok remote_from_length [of 0 pool]
  have "length (remote_workers pool) = length pool - 1"
    by (simp add: pool_ok_def remote_workers_def)
  with async show ?thesis by (simp add: dispatch_def rw [symmetric])
qed

theorem dispatch_async_remote_only_witness:
  "fst (dispatch mock_endpoint
          ((mk_call ''start_worker_execution_loop'' [] [])
             \<lparr>async_run_tensor_parallel_workers_only := True\<rparr>)
          (pool_of (map healthy [100, 80, 120, 90])))
   = Inr [RFuture 1, RFuture 2, RFuture 3]"
proof -
  let ?pool = "pool_of (map healthy [100, 80, 120, 90])"
  let ?c = "(mk_call ''start_worker_execution_loop'' [] [])
              \<lparr>async_run_tensor_parallel_workers_only := True\<rparr>"
  have ok: "pool_ok ?pool" by (simp add: pool_ok_def)
  have async: "async_run_tensor_parallel_workers_only ?c" by simp
  have ix: "filter (\<lambda>i. fst (?pool ! i) \<noteq> Driver) [0..<length ?pool] = [1, 2, 3]"
    by (simp add: upt_conv_Cons del: upt_Suc)
  from dispatch_async_remote_only [where ep = mock_endpoint, OF ok async]
  have "fst (dispatch mock_endpoint ?c ?pool)
           = Inr (map RFuture (filter (\<lambda>i. fst (?pool ! i) \<noteq> Driver) [0..<length ?pool]))"
    by (elim conjE)
  then show ?thesis unfolding ix by simp
qed


end
